theory Spec2Isabelle
  imports Complex_Main "HOL-Library.Multiset"
begin

section \<open>Video scene search: the scene-ranking pipeline of \<open>VideoProcessor\<close>\<close>

text \<open>
  The development embeds the methods of the class \<open>VideoProcessor\<close> of
  \<open>Video_Search_I2T.ipynb\<close>: \<open>detect_scenes\<close>, \<open>extract_frames\<close>,
  \<open>get_query_embedding\<close>, \<open>compute_I2T_embeddings\<close>, \<open>process_scene\<close>,
  \<open>extract_scene_from_video\<close> and \<open>process_video\<close>.

  Conventions.
  \<^item> Python exceptions are values of the type \<open>exn\<close>; a call that may raise returns
    \<open>exn + 'a\<close>, and a \<open>try/except Exception\<close> block is a case distinction on that sum.
  \<^item> Python's \<open>None\<close> is \<open>None\<close> of an option type.
  \<^item> The two neural models are parameters of the embedding: \<open>blip frame\<close> is the caption
    that the BLIP processor and generator produce for a frame (\<open>None\<close> when any of the three
    calls raises), and \<open>clip text\<close> is the row of text features that the CLIP processor and
    \<open>get_text_features\<close> produce for the one-element batch \<open>[text]\<close> (\<open>None\<close> when
    a call raises).
  \<^item> Tensors are nested lists, outermost axis first. Their entries are real numbers: the
    rounding of 32-bit floating point arithmetic is not modelled. The one floating point
    value that has no real counterpart and that the code can produce from real inputs, the
    \<open>nan\<close> of the mean of a tensor without elements, is a value of its own.
  \<^item> Logging calls and the counter \<open>count\<close>, which is only logged, are left out.
\<close>

subsection \<open>Exceptions, scores and tensors\<close>

datatype exn = TypeError | RuntimeError | VideoOpenFailure

text \<open>What \<open>.item()\<close> hands back: a number, or \<open>nan\<close>.\<close>

datatype score = Num real | NaN

type_synonym tensor2 = "real list list"
type_synonym tensor3 = "real list list list"

text \<open>The shape \<open>(rows, columns)\<close> of a two-dimensional tensor.\<close>

definition shape2 :: "tensor2 \<Rightarrow> nat \<times> nat" where
  "shape2 t = (length t, (case t of [] \<Rightarrow> 0 | r # _ \<Rightarrow> length r))"

subsection \<open>The torch operations that the code calls\<close>

text \<open>
  \<open>torch.stack(tensors)\<close> with the default \<open>dim=0\<close>: the tensors become the entries of a
  new outermost axis. It raises \<open>TypeError\<close> when an element of the list is not a tensor
  (here: is \<open>None\<close>), and \<open>RuntimeError\<close> when the list is empty or when two tensors differ
  in shape.
\<close>

definition torch_stack :: "tensor2 option list \<Rightarrow> exn + tensor3" where
  "torch_stack tensors =
     (case those tensors of
        None \<Rightarrow> Inl TypeError
      | Some [] \<Rightarrow> Inl RuntimeError
      | Some (t # ts) \<Rightarrow>
          if list_all (\<lambda>u. shape2 u = shape2 t) ts then Inr (t # ts) else Inl RuntimeError)"

text \<open>
  Broadcasting of one axis: two sizes are compatible when they are equal or one of them
  is 1; \<open>expand k\<close> repeats the single entry of an axis of size 1 that is broadcast to
  size \<open>k\<close>.
\<close>

definition broadcast_size :: "nat \<Rightarrow> nat \<Rightarrow> nat option" where
  "broadcast_size p q =
     (if p = q then Some p else if p = 1 then Some q else if q = 1 then Some p else None)"

definition expand :: "nat \<Rightarrow> 'a list \<Rightarrow> 'a list" where
  "expand k xs = (case xs of [x] \<Rightarrow> replicate k x | _ \<Rightarrow> xs)"

definition expand2 :: "nat \<Rightarrow> nat \<Rightarrow> tensor2 \<Rightarrow> tensor2" where
  "expand2 m d t = expand m (map (expand d) t)"

text \<open>
  \<open>torch.nn.functional.cosine_similarity(x1, x2, dim=1, eps=1e-8)\<close>: both arguments are
  broadcast to their common shape, and along the axis \<open>dim\<close> of that shape the result is
  \<open>sum (x1 / max(norm x1, eps) * x2 / max(norm x2, eps))\<close>, the norm being the Euclidean
  norm along the same axis. The axis \<open>dim\<close> disappears from the shape of the result.
\<close>

definition eps :: real where
  "eps = 1 / 10 ^ 8"

definition vector_norm :: "real list \<Rightarrow> real" where
  "vector_norm v = sqrt (\<Sum>x\<leftarrow>v. x\<^sup>2)"

definition cos_along :: "real list \<Rightarrow> real list \<Rightarrow> real" where
  "cos_along u v =
     (\<Sum>(a, b)\<leftarrow>zip u v. (a / max (vector_norm u) eps) * (b / max (vector_norm v) eps))"

text \<open>
  The code passes \<open>x1\<close> of shape \<open>(a, D1)\<close> and \<open>x2\<close> of shape \<open>(n, b, D2)\<close> and leaves
  \<open>dim\<close> at its default 1. The common shape is \<open>(n, m, d)\<close> with \<open>m\<close> the broadcast of
  \<open>a\<close> and \<open>b\<close>, and \<open>d\<close> that of \<open>D1\<close> and \<open>D2\<close>; axis 1 is the middle axis, of size
  \<open>m\<close>, so the result has shape \<open>(n, d)\<close>: entry \<open>(i, k)\<close> compares column \<open>k\<close> of
  \<open>x1\<close> with column \<open>k\<close> of \<open>x2[i]\<close>. A first argument that is \<open>None\<close> raises
  \<open>TypeError\<close>; shapes that cannot be broadcast raise \<open>RuntimeError\<close>. The second
  argument comes from \<open>torch.stack\<close> and has at least one entry; for completeness the
  result for no entry is the tensor without entries.
\<close>

definition cosine_similarity :: "tensor2 option \<Rightarrow> tensor3 \<Rightarrow> exn + tensor2" where
  "cosine_similarity x1 x2 =
     (case x1 of
        None \<Rightarrow> Inl TypeError
      | Some t1 \<Rightarrow>
          (case x2 of
             [] \<Rightarrow> Inr []
           | t2 # _ \<Rightarrow>
               (case (broadcast_size (fst (shape2 t1)) (fst (shape2 t2)),
                      broadcast_size (snd (shape2 t1)) (snd (shape2 t2))) of
                  (Some m, Some d) \<Rightarrow>
                    Inr (map2 (\<lambda>a b. map2 cos_along (transpose a) (transpose b))
                           (replicate (length x2) (expand2 m d t1))
                           (map (expand2 m d) x2))
                | _ \<Rightarrow> Inl RuntimeError)))"

text \<open>
  \<open>similarities.mean().item()\<close>: the mean of all entries of the tensor; \<open>nan\<close> for a
  tensor without entries. This is the exact mean: the code adds the entries as 32-bit
  floating point numbers, and the rounded sum, unlike the exact one, can depend on the
  order of the entries. Nothing below is about that last-bit difference.
\<close>

definition mean_item :: "tensor2 \<Rightarrow> score" where
  "mean_item t =
     (let xs = concat t in if xs = [] then NaN else Num (sum_list xs / real (length xs)))"

subsection \<open>Embedding texts and captions\<close>

text \<open>
  \<open>get_query_embedding\<close>: the text features of the batch \<open>[query]\<close>, a tensor of shape
  \<open>(1, D)\<close>. Any exception is caught and logged, and the method then returns \<open>None\<close>.
\<close>

definition get_query_embedding :: "(string \<Rightarrow> real list option) \<Rightarrow> string \<Rightarrow> tensor2 option" where
  "get_query_embedding clip query =
     (case clip query of None \<Rightarrow> None | Some features \<Rightarrow> Some [features])"

text \<open>
  The loop of \<open>compute_I2T_embeddings\<close>. A frame whose captioning raises is skipped by
  the \<open>except\<close> branch (\<open>continue\<close>). A caption is embedded with
  \<open>get_query_embedding\<close>, which does not raise: what it returns is appended, also when it
  is \<open>None\<close>.
\<close>

fun I2T_loop ::
  "('f \<Rightarrow> string option) \<Rightarrow> (string \<Rightarrow> real list option) \<Rightarrow> 'f list \<Rightarrow>
   tensor2 option list \<Rightarrow> tensor2 option list" where
  "I2T_loop blip clip [] query_embeddings = query_embeddings"
| "I2T_loop blip clip (frame # frames) query_embeddings =
     (case blip frame of
        None \<Rightarrow> I2T_loop blip clip frames query_embeddings
      | Some query \<Rightarrow>
          I2T_loop blip clip frames (query_embeddings @ [get_query_embedding clip query]))"

definition compute_I2T_embeddings ::
  "('f \<Rightarrow> string option) \<Rightarrow> (string \<Rightarrow> real list option) \<Rightarrow> 'f list \<Rightarrow> exn + tensor3" where
  "compute_I2T_embeddings blip clip frames = torch_stack (I2T_loop blip clip frames [])"

subsection \<open>Scoring a scene\<close>

text \<open>
  \<open>process_scene\<close>: the whole body is inside \<open>try\<close>; every exception ends in the
  \<open>except\<close> branch, which returns -1.
\<close>

definition process_scene ::
  "('f \<Rightarrow> string option) \<Rightarrow> (string \<Rightarrow> real list option) \<Rightarrow> 'f list \<Rightarrow>
   tensor2 option \<Rightarrow> score" where
  "process_scene blip clip frames_in_scene query_embedding =
     (case compute_I2T_embeddings blip clip frames_in_scene of
        Inl ex \<Rightarrow> Num (- 1)
      | Inr scene_embeddings \<Rightarrow>
          (case cosine_similarity query_embedding scene_embeddings of
             Inl ex \<Rightarrow> Num (- 1)
           | Inr similarities \<Rightarrow> mean_item similarities))"

subsection \<open>The video file\<close>

text \<open>
  What the code observes of the file behind \<open>video_path\<close>:
  \<^item> \<open>opens\<close>: whether \<open>scenedetect.open_video\<close> can open it (it raises otherwise);
  \<^item> \<open>cut_list\<close>: the frame numbers at which the \<open>ContentDetector\<close> reports a cut, in
    ascending order;
  \<^item> \<open>frame_count\<close>: the number of frames that \<open>SceneManager.detect_scenes\<close> reads;
  \<^item> \<open>read_at t\<close>: the frame that \<open>cap.set(cv2.CAP_PROP_POS_FRAMES, t)\<close> followed by
    \<open>cap.read()\<close> delivers, \<open>None\<close> when \<open>cap.read()\<close> returns \<open>ret = False\<close>.
\<close>

record 'f video =
  opens :: bool
  cut_list :: "int list"
  frame_count :: int
  read_at :: "int \<Rightarrow> 'f option"

subsection \<open>Detecting scenes\<close>

text \<open>
  \<open>detect_scenes\<close> delegates to PySceneDetect: it runs a \<open>SceneManager\<close> with one
  \<open>ContentDetector\<close> over the opened video and returns \<open>get_scene_list()\<close>, called
  without arguments. In the releases that provide \<open>open_video\<close>, \<open>get_scene_list\<close> has
  the parameter \<open>start_in_scene\<close> with default \<open>False\<close>: it builds the scenes between
  consecutive cuts from the first frame to one past the last frame read
  (\<open>get_scenes_from_cuts\<close>), and returns the empty list instead when no cut was found and
  \<open>start_in_scene\<close> is false. The final \<open>sorted\<close> of \<open>get_scene_list\<close> changes
  nothing, the cuts being ascending and the \<open>ContentDetector\<close> reporting no events. Each
  scene is a pair of timecodes, which \<open>process_video\<close> converts to frame numbers with
  \<open>int\<close>; the second one is the first frame after the scene.
\<close>

fun scenes_between :: "int \<Rightarrow> int list \<Rightarrow> int \<Rightarrow> (int \<times> int) list" where
  "scenes_between last_cut [] end_pos = [(last_cut, end_pos)]"
| "scenes_between last_cut (c # cuts) end_pos = (last_cut, c) # scenes_between c cuts end_pos"

definition get_scenes_from_cuts :: "int list \<Rightarrow> int \<Rightarrow> int \<Rightarrow> (int \<times> int) list" where
  "get_scenes_from_cuts cuts start_pos end_pos = scenes_between start_pos cuts end_pos"

definition get_scene_list :: "bool \<Rightarrow> int list \<Rightarrow> int \<Rightarrow> int \<Rightarrow> (int \<times> int) list" where
  "get_scene_list start_in_scene cuts start_pos last_pos =
     (let scene_list = get_scenes_from_cuts cuts start_pos (last_pos + 1)
      in if cuts = [] \<and> \<not> start_in_scene then [] else scene_list)"

definition detect_scenes :: "'f video \<Rightarrow> exn + (int \<times> int) list" where
  "detect_scenes v =
     (if opens v then Inr (get_scene_list False (cut_list v) 0 (frame_count v - 1))
      else Inl VideoOpenFailure)"

subsection \<open>Reading the frames of a scene\<close>

text \<open>
  The loop \<open>for t in range(scene_start, scene_end + 1)\<close> of \<open>extract_frames\<close> and of
  \<open>extract_scene_from_video\<close>: seek to \<open>t\<close>, read, and append the frame when \<open>ret\<close> is
  true. \<open>extract_frames\<close> converts each frame to an RGB image of the same content before
  appending it; \<open>extract_scene_from_video\<close> appends the frame as read and then writes the
  list, in order, to the output file; its result here is the list of frames written.
\<close>

fun read_loop :: "(int \<Rightarrow> 'f option) \<Rightarrow> int list \<Rightarrow> 'f list \<Rightarrow> 'f list" where
  "read_loop rd [] frames = frames"
| "read_loop rd (t # ts) frames =
     (case rd t of
        Some frame \<Rightarrow> read_loop rd ts (frames @ [frame])
      | None \<Rightarrow> read_loop rd ts frames)"

definition extract_frames :: "'f video \<Rightarrow> int \<Rightarrow> int \<Rightarrow> 'f list" where
  "extract_frames v scene_start scene_end = read_loop (read_at v) [scene_start..scene_end] []"

definition extract_scene_from_video :: "'f video \<Rightarrow> int \<Rightarrow> int \<Rightarrow> 'f list" where
  "extract_scene_from_video v scene_start scene_end =
     read_loop (read_at v) [scene_start..scene_end] []"

subsection \<open>Selecting the best scene\<close>

text \<open>
  Step 4 of \<open>process_video\<close>: the loop over the scenes with its two variables
  \<open>top_scene\<close> and \<open>highest_similarity\<close>. The comparison
  \<open>scene_similarity > highest_similarity\<close> is false when the similarity is \<open>nan\<close>.
\<close>

fun select_loop ::
  "('f \<Rightarrow> string option) \<Rightarrow> (string \<Rightarrow> real list option) \<Rightarrow> tensor2 option \<Rightarrow>
   ('f list \<times> int \<times> int) list \<Rightarrow> (int \<times> int) option \<times> real \<Rightarrow> (int \<times> int) option \<times> real" where
  "select_loop blip clip query_embedding [] state = state"
| "select_loop blip clip query_embedding ((frames_in_scene, scene_start, scene_end) # rest)
     (top_scene, highest_similarity) =
     (case process_scene blip clip frames_in_scene query_embedding of
        Num scene_similarity \<Rightarrow>
          if scene_similarity > highest_similarity
          then select_loop blip clip query_embedding rest
                 (Some (scene_start, scene_end), scene_similarity)
          else select_loop blip clip query_embedding rest (top_scene, highest_similarity)
      | NaN \<Rightarrow> select_loop blip clip query_embedding rest (top_scene, highest_similarity))"

subsection \<open>The pipeline\<close>

text \<open>
  \<open>process_video\<close> returns the output path or \<open>None\<close>; an exception of
  \<open>detect_scenes\<close> is not caught and reaches the caller. The second component of the
  result is the file written to the output path, if any. Step 2 appends one triple per
  scene, in the order of the scene list. The test \<open>if top_scene\<close> of step 5 is true for
  every pair and false for \<open>None\<close> only.
\<close>

definition process_video ::
  "('f \<Rightarrow> string option) \<Rightarrow> (string \<Rightarrow> real list option) \<Rightarrow> 'f video \<Rightarrow> string \<Rightarrow> string \<Rightarrow>
   exn + (string option \<times> 'f list option)" where
  "process_video blip clip v query output_scene_path =
     (case detect_scenes v of
        Inl ex \<Rightarrow> Inl ex
      | Inr scene_list \<Rightarrow>
          (let frames = map (\<lambda>(scene_start, scene_end).
                              (extract_frames v scene_start scene_end, scene_start, scene_end))
                          scene_list;
               query_embedding = get_query_embedding clip query;
               (top_scene, highest_similarity) =
                  select_loop blip clip query_embedding frames (None, - 1)
           in case top_scene of
                Some (scene_start, scene_end) \<Rightarrow>
                  Inr (Some output_scene_path,
                       Some (extract_scene_from_video v scene_start scene_end))
              | None \<Rightarrow> Inr (None, None)))"

section \<open>Notions for stating and proving the properties\<close>

subsection \<open>Comparing a score with a running maximum\<close>

text \<open>
  \<open>exceeds s h\<close> is Python's \<open>s > h\<close> and \<open>reaches s h\<close> is \<open>s >= h\<close>, both false
  for \<open>nan\<close>.
\<close>

definition exceeds :: "score \<Rightarrow> real \<Rightarrow> bool" where
  "exceeds s h = (case s of Num x \<Rightarrow> h < x | NaN \<Rightarrow> False)"

definition reaches :: "score \<Rightarrow> real \<Rightarrow> bool" where
  "reaches s h = (case s of Num x \<Rightarrow> h \<le> x | NaN \<Rightarrow> False)"

subsection \<open>The score that the specification describes\<close>

text \<open>
  The specification's scene score: the cosine similarity between the query's embedding
  vector and each caption's embedding vector, that is, along the axis of the \<open>D\<close>
  embedding coordinates, averaged over the captions.
\<close>

definition mean_cosine :: "real list \<Rightarrow> real list list \<Rightarrow> real" where
  "mean_cosine q es = (\<Sum>e\<leftarrow>es. cos_along q e) / real (length es)"

subsection \<open>Auxiliary notions\<close>

text \<open>The cosine similarity of two vectors with one coordinate each.\<close>

definition cos1 :: "real \<Rightarrow> real \<Rightarrow> real" where
  "cos1 a b = (a / max (abs a) eps) * (b / max (abs b) eps)"

text \<open>What one iteration of the loop of \<open>compute_I2T_embeddings\<close> appends.\<close>

definition caption_embeddings ::
  "('f \<Rightarrow> string option) \<Rightarrow> (string \<Rightarrow> real list option) \<Rightarrow> 'f \<Rightarrow> tensor2 option list" where
  "caption_embeddings blip clip f =
     (case blip f of None \<Rightarrow> [] | Some c \<Rightarrow> [get_query_embedding clip c])"

text \<open>The part of \<open>process_scene\<close> after the loop, as a function of the list built.\<close>

definition scene_score :: "tensor2 option \<Rightarrow> tensor2 option list \<Rightarrow> score" where
  "scene_score q embs =
     (case torch_stack embs of
        Inl ex \<Rightarrow> Num (- 1)
      | Inr se \<Rightarrow>
          (case cosine_similarity q se of Inl ex \<Rightarrow> Num (- 1) | Inr sims \<Rightarrow> mean_item sims))"

text \<open>The lists that \<open>torch.stack\<close> accepts.\<close>

definition stackable :: "tensor2 option list \<Rightarrow> bool" where
  "stackable embs \<longleftrightarrow> None \<notin> set embs \<and> embs \<noteq> [] \<and>
     (\<forall>u\<in>set embs. \<forall>w\<in>set embs. shape2 (the u) = shape2 (the w))"

text \<open>One row of the result of \<open>cosine_similarity\<close>.\<close>

definition along :: "nat \<Rightarrow> nat \<Rightarrow> tensor2 \<Rightarrow> tensor2 \<Rightarrow> real list" where
  "along m d t1 b = map2 cos_along (transpose (expand2 m d t1)) (transpose (expand2 m d b))"


text \<open>A frame without usable embedding: captioning fails, or embedding the caption fails.\<close>

definition frame_fails :: "('f \<Rightarrow> string option) \<Rightarrow> (string \<Rightarrow> real list option) \<Rightarrow> 'f \<Rightarrow> bool" where
  "frame_fails blip clip f = (case blip f of None \<Rightarrow> True | Some c \<Rightarrow> clip c = None)"

subsection \<open>A small example\<close>

text \<open>
  A frame is identified by a number: frame \<open>t\<close> of a file is the number \<open>10 + t\<close>. The
  captioner fails on 10; the caption of 11 cannot be embedded; 13 is captioned \<open>a cat\<close>,
  embedded as \<open>(-1, 2)\<close>; every other frame is captioned \<open>a dog\<close>, embedded as
  \<open>(3, 4)\<close>. The query \<open>sunset\<close> is embedded as \<open>(1, 0)\<close>. The example video has four
  frames and one cut, at frame 2; the still video has three frames and no cut.
\<close>

definition demo_blip :: "nat \<Rightarrow> string option" where
  "demo_blip frame =
     (if frame = 10 then None else if frame = 11 then Some ''static''
      else if frame = 13 then Some ''a cat'' else Some ''a dog'')"

definition demo_clip :: "string \<Rightarrow> real list option" where
  "demo_clip text =
     (if text = ''static'' then None else if text = ''a dog'' then Some [3, 4]
      else if text = ''a cat'' then Some [- 1, 2] else Some [1, 0])"

definition demo_video :: "nat video" where
  "demo_video = \<lparr>opens = True, cut_list = [2], frame_count = 4,
     read_at = (\<lambda>t. if 0 \<le> t \<and> t < 4 then Some (nat t + 10) else None)\<rparr>"

definition still_video :: "nat video" where
  "still_video = \<lparr>opens = True, cut_list = [], frame_count = 3,
     read_at = (\<lambda>t. if 0 \<le> t \<and> t < 3 then Some (nat t + 12) else None)\<rparr>"

section \<open>Auxiliary lemmas\<close>

subsection \<open>The selection loop\<close>

lemma select_loop_append:
  "select_loop blip clip q (xs @ ys) st = select_loop blip clip q ys (select_loop blip clip q xs st)"
proof (induction xs arbitrary: st)
  case Nil
  show ?case by simp
next
  case (Cons x xs)
  obtain fs s e where x: "x = (fs, s, e)" by (cases x) auto
  obtain best hi where st: "st = (best, hi)" by (cases st) auto
  show ?case unfolding x st by (simp add: Cons.IH split: score.splits)
qed

lemma select_loop_spec:
  "select_loop blip clip q scenes (best, hi) = (best', hi') \<Longrightarrow>
     (best' = best \<and> hi' = hi \<and> list_all (\<lambda>x. \<not> exceeds (process_scene blip clip (fst x) q) hi) scenes) \<or>
     (\<exists>pre fs s e post. scenes = pre @ (fs, s, e) # post \<and> best' = Some (s, e) \<and>
        process_scene blip clip fs q = Num hi' \<and> hi < hi' \<and>
        list_all (\<lambda>x. \<not> reaches (process_scene blip clip (fst x) q) hi') pre \<and>
        list_all (\<lambda>x. \<not> exceeds (process_scene blip clip (fst x) q) hi') post)"
proof (induction scenes arbitrary: best hi)
  case Nil
  then show ?case by simp
next
  case (Cons x xs)
  obtain fs s e where x: "x = (fs, s, e)" by (cases x) auto
  let ?sc = "process_scene blip clip fs q"
  show ?case
  proof (cases "exceeds ?sc hi")
    case True
    then obtain v where v: "?sc = Num v" "hi < v" by (auto simp: exceeds_def split: score.splits)
    from Cons.prems have run: "select_loop blip clip q xs (Some (s, e), v) = (best', hi')"
      using v by (simp add: x)
    from Cons.IH[OF run] show ?thesis
    proof
      assume a: "best' = Some (s, e) \<and> hi' = v \<and> list_all (\<lambda>x. \<not> exceeds (process_scene blip clip (fst x) q) v) xs"
      have "x # xs = [] @ (fs, s, e) # xs" by (simp add: x)
      with a v show ?thesis by fastforce
    next
      assume "\<exists>pre fs' s' e' post. xs = pre @ (fs', s', e') # post \<and> best' = Some (s', e') \<and>
        process_scene blip clip fs' q = Num hi' \<and> v < hi' \<and>
        list_all (\<lambda>x. \<not> reaches (process_scene blip clip (fst x) q) hi') pre \<and>
        list_all (\<lambda>x. \<not> exceeds (process_scene blip clip (fst x) q) hi') post"
      then obtain pre fs' s' e' post where b: "xs = pre @ (fs', s', e') # post" "best' = Some (s', e')"
        "process_scene blip clip fs' q = Num hi'" "v < hi'"
        "list_all (\<lambda>x. \<not> reaches (process_scene blip clip (fst x) q) hi') pre"
        "list_all (\<lambda>x. \<not> exceeds (process_scene blip clip (fst x) q) hi') post" by blast
      have c: "x # xs = (x # pre) @ (fs', s', e') # post" using b by simp
      have d: "\<not> reaches (process_scene blip clip (fst x) q) hi'" using v b(4) by (simp add: x reaches_def)
      have e: "hi < hi'" using v b(4) by simp
      have "list_all (\<lambda>x. \<not> reaches (process_scene blip clip (fst x) q) hi') (x # pre)" using d b(5) by simp
      with c b e show ?thesis by blast
    qed
  next
    case False
    from Cons.prems False have run: "select_loop blip clip q xs (best, hi) = (best', hi')"
      by (simp add: x exceeds_def split: score.splits if_splits)
    from Cons.IH[OF run] show ?thesis
    proof
      assume a: "best' = best \<and> hi' = hi \<and> list_all (\<lambda>x. \<not> exceeds (process_scene blip clip (fst x) q) hi) xs"
      with False show ?thesis by (simp add: x)
    next
      assume "\<exists>pre fs' s' e' post. xs = pre @ (fs', s', e') # post \<and> best' = Some (s', e') \<and>
        process_scene blip clip fs' q = Num hi' \<and> hi < hi' \<and>
        list_all (\<lambda>x. \<not> reaches (process_scene blip clip (fst x) q) hi') pre \<and>
        list_all (\<lambda>x. \<not> exceeds (process_scene blip clip (fst x) q) hi') post"
      then obtain pre fs' s' e' post where b: "xs = pre @ (fs', s', e') # post" "best' = Some (s', e')"
        "process_scene blip clip fs' q = Num hi'" "hi < hi'"
        "list_all (\<lambda>x. \<not> reaches (process_scene blip clip (fst x) q) hi') pre"
        "list_all (\<lambda>x. \<not> exceeds (process_scene blip clip (fst x) q) hi') post" by blast
      have c: "x # xs = (x # pre) @ (fs', s', e') # post" using b by simp
      have d: "\<not> reaches (process_scene blip clip (fst x) q) hi'" using False b(4)
        by (auto simp add: x reaches_def exceeds_def split: score.splits)
      have "list_all (\<lambda>x. \<not> reaches (process_scene blip clip (fst x) q) hi') (x # pre)" using d b(5) by simp
      with c b show ?thesis by blast
    qed
  qed
qed

subsection \<open>Lists and tensors\<close>

lemma I2T_loop_concat:
  "I2T_loop blip clip fs acc = acc @ concat (map (caption_embeddings blip clip) fs)"
  by (induction fs arbitrary: acc) (auto simp: caption_embeddings_def split: option.splits)

lemma those_None_iff: "those xs = None \<longleftrightarrow> None \<in> set xs"
  by (induction xs) (auto split: option.splits)

lemma those_Some_map: "those xs = Some ys \<Longrightarrow> xs = map Some ys"
  by (induction xs arbitrary: ys) (auto split: option.splits)

lemma transpose_row: "transpose [r] = map (\<lambda>x. [x]) r"
  by (induction r) auto

lemma vector_norm_single: "vector_norm [x] = \<bar>x\<bar>"
  by (simp add: vector_norm_def)

lemma cos_along_single: "cos_along [a] [b] = cos1 a b"
  by (simp add: cos_along_def cos1_def vector_norm_single)

lemma map2_cos_along_columns:
  "map2 cos_along (map (\<lambda>x. [x]) u) (map (\<lambda>x. [x]) v) = map2 cos1 u v"
proof (induction u arbitrary: v)
  case Nil
  show ?case by simp
next
  case (Cons a u)
  show ?case by (cases v) (simp_all add: Cons.IH cos_along_single)
qed




lemma process_scene_scene_score:
  "process_scene blip clip fs q = scene_score q (concat (map (caption_embeddings blip clip) fs))"
  by (simp add: process_scene_def scene_score_def compute_I2T_embeddings_def I2T_loop_concat)

lemma mset_concat_map:
  assumes "mset xs = mset ys"
  shows "mset (concat (map g xs)) = mset (concat (map g ys))"
proof -
  have "mset (concat (map g zs)) = sum_mset (image_mset (\<lambda>x. mset (g x)) (mset zs))" for zs
    by (induction zs) auto
  with assms show ?thesis by simp
qed

lemma torch_stack_cases:
  "torch_stack embs = (if stackable embs then Inr (map the embs)
     else if None \<in> set embs then Inl TypeError else Inl RuntimeError)"
proof (cases "those embs")
  case None
  then have "None \<in> set embs" by (simp add: those_None_iff)
  then show ?thesis by (simp add: torch_stack_def stackable_def None)
next
  case (Some ts)
  then have e: "embs = map Some ts" by (rule those_Some_map)
  show ?thesis
  proof (cases ts)
    case Nil
    then show ?thesis using Some e by (simp add: torch_stack_def stackable_def)
  next
    case (Cons t tl)
    have "stackable embs \<longleftrightarrow> list_all (\<lambda>u. shape2 u = shape2 t) tl"
      unfolding e Cons stackable_def by (auto simp: list_all_iff)
    moreover have "None \<notin> set embs" unfolding e by auto
    moreover have "map the embs = ts" unfolding e by (simp add: comp_def)
    ultimately show ?thesis using Some Cons by (simp add: torch_stack_def)
  qed
qed

lemma stackable_mset: "mset xs = mset ys \<Longrightarrow> stackable xs = stackable ys"
proof -
  assume a: "mset xs = mset ys"
  then have "set xs = set ys" by (rule mset_eq_setD)
  moreover have "xs = [] \<longleftrightarrow> ys = []" using a by (metis mset_zero_iff)
  ultimately show ?thesis by (simp add: stackable_def)
qed

lemma map2_replicate_map:
  "map2 f (replicate (length ys) x) (map g ys) = map (\<lambda>y. f x (g y)) ys"
  by (induction ys) auto

lemma cosine_similarity_uniform:
  assumes "ts \<noteq> []" "\<forall>u\<in>set ts. shape2 u = sh"
  shows "cosine_similarity (Some t1) ts =
     (case (broadcast_size (fst (shape2 t1)) (fst sh), broadcast_size (snd (shape2 t1)) (snd sh)) of
        (Some m, Some d) \<Rightarrow> Inr (map (along m d t1) ts)
      | _ \<Rightarrow> Inl RuntimeError)"
proof -
  obtain t tl where ts: "ts = t # tl" using assms(1) by (cases ts) auto
  have sh: "shape2 t = sh" using assms(2) ts by simp
  have m: "map2 (\<lambda>a b. map2 cos_along (transpose a) (transpose b))
          (replicate (length ts) (expand2 m d t1)) (map (expand2 m d) ts) = map (along m d t1) ts" for m d
    unfolding map2_replicate_map along_def ..
  have "cosine_similarity (Some t1) (t # tl) =
     (case (broadcast_size (fst (shape2 t1)) (fst sh), broadcast_size (snd (shape2 t1)) (snd sh)) of
        (Some m, Some d) \<Rightarrow> Inr (map2 (\<lambda>a b. map2 cos_along (transpose a) (transpose b))
          (replicate (length (t # tl)) (expand2 m d t1)) (map (expand2 m d) (t # tl)))
      | _ \<Rightarrow> Inl RuntimeError)"
    by (simp add: cosine_similarity_def sh)
  then show ?thesis unfolding ts[symmetric] m .
qed

lemma mean_item_mset:
  "mean_item t = (if mset (concat t) = {#} then NaN
     else Num (sum_mset (mset (concat t)) / real (size (mset (concat t)))))"
  by (simp add: mean_item_def Let_def sum_mset_sum_list)

lemma scene_score_mset:
  assumes "mset embs = mset embs'"
  shows "scene_score q embs = scene_score q embs'"
proof (cases "stackable embs")
  case False
  then have "\<not> stackable embs'" using stackable_mset[OF assms] by simp
  with False show ?thesis by (simp add: scene_score_def torch_stack_cases)
next
  case True
  then have st': "stackable embs'" using stackable_mset[OF assms] by simp
  let ?ts = "map the embs" and ?ts' = "map the embs'"
  have "image_mset the (mset embs) = image_mset the (mset embs')" using assms by simp
  then have ms: "mset ?ts = mset ?ts'" by simp
  have ne: "?ts \<noteq> []" "?ts' \<noteq> []" using True st' by (auto simp: stackable_def)
  define sh where "sh = shape2 (hd ?ts)"
  have hd_in: "hd ?ts \<in> set ?ts" using ne(1) by (rule hd_in_set)
  have "\<forall>u\<in>set ?ts. \<forall>w\<in>set ?ts. shape2 u = shape2 w"
    using True unfolding stackable_def set_map by blast
  with hd_in have u: "\<forall>u\<in>set ?ts. shape2 u = sh"
    unfolding sh_def by blast
  have "set ?ts' = set ?ts" using ms[symmetric] by (rule mset_eq_setD)
  with u have u': "\<forall>u\<in>set ?ts'. shape2 u = sh" by simp
  show ?thesis
  proof (cases q)
    case None
    then show ?thesis using True st' by (simp add: scene_score_def torch_stack_cases cosine_similarity_def)
  next
    case (Some t1)
    have "mset (concat (map (along m d t1) ?ts)) = mset (concat (map (along m d t1) ?ts'))" for m d
      using ms by (rule mset_concat_map)
    then have "mean_item (map (along m d t1) ?ts) = mean_item (map (along m d t1) ?ts')" for m d
      by (simp only: mean_item_mset)
    then have "(case cosine_similarity (Some t1) ?ts of
                  Inl ex \<Rightarrow> Num (- 1) | Inr sims \<Rightarrow> mean_item sims) =
               (case cosine_similarity (Some t1) ?ts' of
                  Inl ex \<Rightarrow> Num (- 1) | Inr sims \<Rightarrow> mean_item sims)"
      unfolding cosine_similarity_uniform[OF ne(1) u] cosine_similarity_uniform[OF ne(2) u']
      by (simp split: option.splits)
    then show ?thesis using True st'
      by (simp add: scene_score_def torch_stack_cases Some)
  qed
qed


lemma expand2_row: "expand2 (Suc 0) d [r] = [expand d r]"
  by (simp add: expand2_def expand_def)

lemma along_row: "along (Suc 0) d [qr] [r] = map2 cos1 (expand d qr) (expand d r)"
  by (simp add: along_def expand2_row transpose_row map2_cos_along_columns)




subsection \<open>Failing queries, failing frames and the frame reader\<close>

lemma process_scene_no_query: "process_scene blip clip frames None = Num (- 1)"
  by (simp add: process_scene_def cosine_similarity_def split: sum.splits)

lemma select_loop_unchanged:
  "list_all (\<lambda>x. \<not> exceeds (process_scene blip clip (fst x) q) hi) scenes \<Longrightarrow>
   select_loop blip clip q scenes (best, hi) = (best, hi)"
proof (induction scenes)
  case Nil
  show ?case by simp
next
  case (Cons x xs)
  obtain fs s e where x: "x = (fs, s, e)" by (cases x) auto
  from Cons show ?case by (simp add: x exceeds_def split: score.splits)
qed

lemma select_loop_mono: "select_loop blip clip q scenes (best, hi) = (best', hi') \<Longrightarrow> hi \<le> hi'"
  using select_loop_spec[of blip clip q scenes best hi best' hi'] by auto

lemma process_video_no_query:
  assumes "clip query = None"
  shows "process_video blip clip v query path =
     (case detect_scenes v of Inl ex \<Rightarrow> Inl ex | Inr scene_list \<Rightarrow> Inr (None, None))"
proof (cases "detect_scenes v")
  case (Inl ex)
  then show ?thesis by (simp add: process_video_def)
next
  case (Inr scene_list)
  have q: "get_query_embedding clip query = None" using assms by (simp add: get_query_embedding_def)
  have "select_loop blip clip None scenes (None, - 1) = (None, - 1)" for scenes :: "('a list \<times> int \<times> int) list"
    by (rule select_loop_unchanged) (simp add: list_all_iff process_scene_no_query exceeds_def)
  then show ?thesis using Inr by (simp add: process_video_def q)
qed

lemma all_fail_score:
  assumes "list_all (frame_fails blip clip) frames"
  shows "process_scene blip clip frames q = Num (- 1)"
proof -
  let ?embs = "concat (map (caption_embeddings blip clip) frames)"
  have "e = None" if "e \<in> set ?embs" for e
    using that assms
    by (auto simp: list_all_iff frame_fails_def caption_embeddings_def get_query_embedding_def
        split: option.splits)
  then have "\<not> stackable ?embs" unfolding stackable_def by (cases ?embs) auto
  then show ?thesis by (simp add: process_scene_scene_score scene_score_def torch_stack_cases)
qed

lemma read_loop_filter:
  "read_loop rd ts acc = acc @ map (\<lambda>t. the (rd t)) (filter (\<lambda>t. rd t \<noteq> None) ts)"
  by (induction ts arbitrary: acc) (auto split: option.splits)

subsection \<open>The example, evaluated\<close>

lemma upto_0_2: "[0..2] = [0, 1, 2::int]" by (simp add: upto_rec1)
lemma upto_2_4: "[2..4] = [2, 3, 4::int]" by (simp add: upto_rec1)

lemma demo_scenes: "detect_scenes demo_video = Inr [(0, 2), (2, 4)]"
  by (simp add: detect_scenes_def demo_video_def get_scene_list_def get_scenes_from_cuts_def)

lemma demo_frames_first: "extract_frames demo_video 0 2 = [10, 11, 12]"
  by (simp add: extract_frames_def demo_video_def upto_0_2)

lemma demo_frames_second: "extract_frames demo_video 2 4 = [12, 13]"
  by (simp add: extract_frames_def demo_video_def upto_2_4)

lemma demo_written: "extract_scene_from_video demo_video 2 4 = [12, 13]"
  by (simp add: extract_scene_from_video_def demo_video_def upto_2_4)

lemma demo_query: "get_query_embedding demo_clip ''sunset'' = Some [[1, 0]]"
  by (simp add: get_query_embedding_def demo_clip_def)

lemmas demo_eval = process_scene_def compute_I2T_embeddings_def demo_blip_def demo_clip_def
      get_query_embedding_def torch_stack_def cosine_similarity_def shape2_def broadcast_size_def
      expand2_def expand_def mean_item_def cos_along_def vector_norm_single eps_def

lemma demo_score_dog: "process_scene demo_blip demo_clip [12] (Some [[1, 0]]) = Num (1 / 2)"
  by (simp add: demo_eval)

lemma demo_score_dog_cat: "process_scene demo_blip demo_clip [12, 13] (Some [[1, 0]]) = Num 0"
  by (simp add: demo_eval)


lemma demo_score_partial: "process_scene demo_blip demo_clip [10, 11, 12] (Some [[1, 0]]) = Num (- 1)"
  by (simp add: demo_eval)

lemma demo_score_failed: "process_scene demo_blip demo_clip [10, 11] q = Num (- 1)"
  by (simp add: demo_eval)

lemma demo_run:
  "process_video demo_blip demo_clip demo_video ''sunset'' ''out.mp4'' = Inr (Some ''out.mp4'', Some [12, 13])"
  by (simp add: process_video_def demo_scenes demo_frames_first demo_frames_second demo_written
      demo_query demo_score_partial demo_score_dog_cat)

lemma sqrt25: "sqrt 25 = 5"
proof -
  have "sqrt (5 * 5) = \<bar>5\<bar>" by (rule real_sqrt_abs2)
  then show ?thesis by simp
qed

lemma still_scenes: "detect_scenes still_video = Inr []"
  by (simp add: detect_scenes_def still_video_def get_scene_list_def)

subsection \<open>The range of the similarity entries\<close>












subsection \<open>What \<open>process_scene\<close> computes\<close>

text \<open>
  Entries of absolute value at least \<open>eps\<close> contribute the product of their signs.
\<close>

lemma expand_same_length: "length xs = d \<Longrightarrow> expand d xs = xs"
  by (auto simp: expand_def split: list.splits)

lemma cos1_sgn:
  assumes "eps \<le> abs a" "eps \<le> abs b"
  shows "cos1 a b = sgn a * sgn b"
proof -
  have "max (abs a) eps = abs a" "max (abs b) eps = abs b" using assms by (simp_all add: max_def)
  then show ?thesis by (simp add: cos1_def sgn_real_def abs_if)
qed

text \<open>
  A caption whose embedding fails leaves \<open>None\<close> in the list that is stacked, and the whole
  scene scores -1, whatever the other frames yield.
\<close>

lemma caption_embedding_failure_fails_scene:
  assumes "f \<in> set frames" "blip f = Some c" "clip c = None"
  shows "process_scene blip clip frames q = Num (- 1)"
proof -
  have "None \<in> set (caption_embeddings blip clip f)"
    using assms(2,3) by (simp add: caption_embeddings_def get_query_embedding_def)
  with assms(1) have "None \<in> set (concat (map (caption_embeddings blip clip) frames))" by auto
  then have "\<not> stackable (concat (map (caption_embeddings blip clip) frames))"
    by (simp add: stackable_def)
  then show ?thesis by (simp add: process_scene_scene_score scene_score_def torch_stack_cases)
qed

lemma caption_embedding_failure_fails_scene_witness:
  "demo_blip 11 = Some ''static'' \<and> demo_clip ''static'' = None \<and>
   I2T_loop demo_blip demo_clip [12, 11, 13] [] = [Some [[3, 4]], None, Some [[- 1, 2]]] \<and>
   process_scene demo_blip demo_clip [12, 11, 13] (Some [[1, 0]]) = Num (- 1)"
proof -
  have a: "(11 :: nat) \<in> set [12, 11, 13]" by simp
  have b: "demo_blip 11 = Some ''static''" by (simp add: demo_blip_def)
  have c: "demo_clip ''static'' = None" by (simp add: demo_clip_def)
  have "I2T_loop demo_blip demo_clip [12, 11, 13] [] = [Some [[3, 4]], None, Some [[- 1, 2]]]"
    by (simp add: demo_blip_def demo_clip_def get_query_embedding_def)
  moreover have "process_scene demo_blip demo_clip [12, 11, 13] (Some [[1, 0]]) = Num (- 1)"
    using a b c by (rule caption_embedding_failure_fails_scene)
  ultimately show ?thesis using b c by blast
qed

text \<open>
  When every frame of a non-empty scene is captioned and its caption embedded, with as many
  coordinates as the query embedding, the score is the mean, over all frames and all
  coordinates, of the one-coordinate similarities \<open>cos1\<close>.
\<close>

lemma process_scene_coordinatewise:
  assumes ne: "frames \<noteq> []" and q: "qr \<noteq> []"
    and ok: "\<forall>f\<in>set frames. \<exists>c. blip f = Some c \<and> clip c = Some (row f) \<and> length (row f) = length qr"
  shows "process_scene blip clip frames (Some [qr]) =
     Num ((\<Sum>f\<leftarrow>frames. \<Sum>(a, b)\<leftarrow>zip qr (row f). cos1 a b) / real (length frames * length qr))"
proof -
  let ?D = "length qr"
  let ?embs = "concat (map (caption_embeddings blip clip) frames)"
  have ce: "caption_embeddings blip clip f = [Some [row f]]" if "f \<in> set frames" for f
    using ok that by (auto simp: caption_embeddings_def get_query_embedding_def)
  have "concat (map (caption_embeddings blip clip) fs) = map (\<lambda>f. Some [row f]) fs"
    if "set fs \<subseteq> set frames" for fs
    using that by (induction fs) (auto simp: ce)
  then have embs: "?embs = map (\<lambda>f. Some [row f]) frames" by simp
  have sh: "shape2 [row f] = (1, ?D)" if "f \<in> set frames" for f
    using ok that by (auto simp: shape2_def)
  have st: "stackable ?embs"
    unfolding embs stackable_def using ne sh by auto
  let ?ts = "map (\<lambda>f. [row f]) frames"
  have ts: "map the ?embs = ?ts" unfolding embs by (simp add: comp_def)
  have tne: "?ts \<noteq> []" using ne by simp
  have u: "\<forall>u\<in>set ?ts. shape2 u = (1, ?D)" using sh by auto
  have cs: "cosine_similarity (Some [qr]) ?ts = Inr (map (along 1 ?D [qr]) ?ts)"
    by (simp add: cosine_similarity_uniform[OF tne u] shape2_def broadcast_size_def)
  have al: "along 1 ?D [qr] [row f] = map2 cos1 qr (row f)" if "f \<in> set frames" for f
  proof -
    have "length (row f) = ?D" using ok that by auto
    then show ?thesis by (simp add: along_row expand_same_length)
  qed
  have rows: "map (along 1 ?D [qr]) ?ts = map (\<lambda>f. map2 cos1 qr (row f)) frames"
    using al by (simp add: comp_def)
  let ?sims = "map (\<lambda>f. map2 cos1 qr (row f)) frames"
  have len: "length (concat (map (\<lambda>f. map2 cos1 qr (row f)) fs)) = length fs * ?D"
    if "set fs \<subseteq> set frames" for fs
    using that ok by (induction fs) auto
  have sm: "sum_list (concat ?sims) = (\<Sum>f\<leftarrow>frames. \<Sum>(a, b)\<leftarrow>zip qr (row f). cos1 a b)"
    by (induction frames) auto
  have l: "length (concat ?sims) = length frames * ?D" using len[of frames] by simp
  have "0 < length frames * ?D" using ne q by simp
  with l have cne: "concat ?sims \<noteq> []" by (metis length_greater_0_conv)
  have "mean_item ?sims =
     Num ((\<Sum>f\<leftarrow>frames. \<Sum>(a, b)\<leftarrow>zip qr (row f). cos1 a b) / real (length frames * ?D))"
    unfolding mean_item_def Let_def using cne by (simp only: sm l if_False)
  moreover have "torch_stack ?embs = Inr (map the ?embs)"
    using st by (simp add: torch_stack_cases)
  then have "scene_score (Some [qr]) ?embs = mean_item ?sims"
    by (simp only: scene_score_def ts cs rows sum.case)
  ultimately show ?thesis by (simp only: process_scene_scene_score)
qed

lemma process_scene_coordinatewise_witness:
  "process_scene demo_blip demo_clip [12, 13] (Some [[1, 0]]) =
     Num ((cos1 1 3 + cos1 0 4 + (cos1 1 (- 1) + cos1 0 2)) / 4)"
proof -
  have ok: "\<forall>f\<in>set [12, 13 :: nat]. \<exists>c. demo_blip f = Some c \<and>
              demo_clip c = Some (if f = 12 then [3, 4] else [- 1, 2]) \<and>
              length (if f = 12 then [3, 4] else [- 1, 2 :: real]) = length [1, 0 :: real]"
    by (simp add: demo_blip_def demo_clip_def)
  have ne: "[12, 13 :: nat] \<noteq> []" and q: "[1, 0 :: real] \<noteq> []" by simp_all
  have "process_scene demo_blip demo_clip [12, 13] (Some [[1, 0]]) =
     Num ((\<Sum>f\<leftarrow>[12, 13 :: nat]. \<Sum>(a, b)\<leftarrow>zip [1, 0] (if f = 12 then [3, 4] else [- 1, 2]). cos1 a b) /
          real (length [12, 13 :: nat] * length [1, 0 :: real]))"
    using ne q ok by (rule process_scene_coordinatewise)
  then show ?thesis by simp
qed

text \<open>
  The exact mean does not depend on the order of the frames: over the reals, reordering the
  frames of a scene, and with them the caption embeddings, leaves the score unchanged. The
  code adds 32-bit floating point numbers, with a rounding after each addition, so that
  this says nothing about the last bits of the value the code returns.
\<close>

lemma exact_mean_permutation:
  assumes "mset frames = mset frames'"
  shows "process_scene blip clip frames q = process_scene blip clip frames' q"
  unfolding process_scene_scene_score
  using assms by (intro scene_score_mset mset_concat_map)

section \<open>The claims\<close>

text \<open>
  Claim C1 (scene score). The claim: for a scene with at least one usable caption embedding,
  \<open>process_scene\<close> returns the arithmetic mean of the cosine similarities between the
  query's embedding vector and each caption's embedding vector. Evaluated on the example:
  the query embedding is the tensor \<open>[[1, 0]]\<close> of shape \<open>(1, 2)\<close>, the only frame yields
  the caption embedding \<open>[[3, 4]]\<close>, and the stack has shape \<open>(1, 1, 2)\<close>. With
  \<open>dim = 1\<close> the similarity is taken along the axis of size one, coordinate by coordinate,
  and the mean over the two coordinates is \<open>1/2\<close>; the cosine similarity of the vectors
  \<open>(1, 0)\<close> and \<open>(3, 4)\<close> is \<open>3/5\<close>.
\<close>

theorem process_scene_not_mean_cosine:
  "get_query_embedding demo_clip ''sunset'' = Some [[1, 0]] \<and>
   I2T_loop demo_blip demo_clip [12] [] = [Some [[3, 4]]] \<and>
   process_scene demo_blip demo_clip [12] (get_query_embedding demo_clip ''sunset'') = Num (1 / 2) \<and>
   mean_cosine [1, 0] [[3, 4]] = 3 / 5"
proof -
  have "I2T_loop demo_blip demo_clip [12] [] = [Some [[3, 4]]]"
    by (simp add: demo_blip_def demo_clip_def get_query_embedding_def)
  moreover have "mean_cosine [1, 0] [[3, 4]] = 3 / 5"
    by (simp add: mean_cosine_def cos_along_def vector_norm_def sqrt25 eps_def)
  ultimately show ?thesis by (simp add: demo_query demo_score_dog)
qed

text \<open>
  Claim C2 (failure of the query embedding), as stated: the failure is fatal, and
  \<open>process_video\<close> stops and surfaces an error. On the example the query \<open>static\<close>
  cannot be embedded, scenes are detected, and \<open>process_video\<close> returns normally, with
  the value \<open>None\<close> and no file written.
\<close>

theorem query_embedding_failure_not_fatal:
  "demo_clip ''static'' = None \<and>
   detect_scenes demo_video = Inr [(0, 2), (2, 4)] \<and>
   process_video demo_blip demo_clip demo_video ''static'' ''out.mp4'' = Inr (None, None)"
proof -
  have "demo_clip ''static'' = None" by (simp add: demo_clip_def)
  then show ?thesis by (simp add: process_video_no_query demo_scenes)
qed

text \<open>
  Claim C2, amended: when embedding the query fails, \<open>get_query_embedding\<close> returns
  \<open>None\<close>, every scene is still scored and scores -1, and \<open>process_video\<close> returns
  \<open>None\<close> without writing a file, unless \<open>detect_scenes\<close> has raised.
\<close>

theorem query_embedding_failure_no_scene:
  assumes "clip query = None"
  shows "get_query_embedding clip query = None \<and>
         process_scene blip clip frames (get_query_embedding clip query) = Num (- 1) \<and>
         process_video blip clip v query path =
           (case detect_scenes v of Inl ex \<Rightarrow> Inl ex | Inr scene_list \<Rightarrow> Inr (None, None))"
proof -
  have "get_query_embedding clip query = None" using assms by (simp add: get_query_embedding_def)
  moreover have "process_video blip clip v query path =
           (case detect_scenes v of Inl ex \<Rightarrow> Inl ex | Inr scene_list \<Rightarrow> Inr (None, None))"
    using assms by (rule process_video_no_query)
  ultimately show ?thesis by (simp add: process_scene_no_query)
qed

theorem query_embedding_failure_no_scene_witness:
  "demo_clip ''static'' = None \<and>
   get_query_embedding demo_clip ''static'' = None \<and>
   process_scene demo_blip demo_clip [12, 13] (get_query_embedding demo_clip ''static'') = Num (- 1) \<and>
   process_video demo_blip demo_clip demo_video ''static'' ''out.mp4'' = Inr (None, None)"
proof -
  have h: "demo_clip ''static'' = None" by (simp add: demo_clip_def)
  show ?thesis
    using h query_embedding_failure_no_scene[where clip = demo_clip and query = "''static''"
        and blip = demo_blip and frames = "[12, 13]" and v = demo_video and path = "''out.mp4''"]
    by (auto simp: demo_scenes)
qed

text \<open>
  Claim C3 (fully failed scene): when for every frame of a scene the captioning fails or
  the embedding of the caption fails, the score of the scene is exactly -1, whatever the
  query embedding; and the selection loop goes on with the scenes after it, from the state
  it had reached before it.
\<close>

theorem all_frames_fail_sentinel:
  assumes "list_all (frame_fails blip clip) frames"
  shows "process_scene blip clip frames q = Num (- 1) \<and>
         select_loop blip clip q (pre @ (frames, s, e) # post) (None, - 1) =
           select_loop blip clip q post (select_loop blip clip q pre (None, - 1))"
proof -
  have sc: "process_scene blip clip frames q = Num (- 1)" using assms by (rule all_fail_score)
  obtain best hi where st: "select_loop blip clip q pre (None, - 1) = (best, hi)"
    by (cases "select_loop blip clip q pre (None, - 1)") auto
  then have "- 1 \<le> hi" by (rule select_loop_mono)
  then have "select_loop blip clip q ((frames, s, e) # post) (best, hi) =
             select_loop blip clip q post (best, hi)"
    by (simp add: sc)
  then show ?thesis by (simp add: sc select_loop_append st)
qed

theorem all_frames_fail_sentinel_witness:
  "list_all (frame_fails demo_blip demo_clip) [10, 11] \<and>
   process_scene demo_blip demo_clip [10, 11] (Some [[1, 0]]) = Num (- 1) \<and>
   select_loop demo_blip demo_clip (Some [[1, 0]]) ([([12], 0, 1)] @ ([10, 11], 1, 2) # [([12, 13], 2, 4)]) (None, - 1) =
     (Some (0, 1), 1 / 2)"
proof -
  have h: "list_all (frame_fails demo_blip demo_clip) [10, 11]"
    by (simp add: frame_fails_def demo_blip_def demo_clip_def)
  show ?thesis
    using h all_frames_fail_sentinel[OF h, of "Some [[1, 0]]" "[([12], 0, 1)]" 1 2 "[([12, 13], 2, 4)]"]
    by (simp add: demo_score_dog demo_score_dog_cat)
qed



text \<open>
  Claim C5 (the sentinel never wins): when some scene has a score above -1, a scene is
  selected; and the scene selected, if any, has a score strictly above -1, so that it is
  not a scene scored with the sentinel.
\<close>

theorem sentinel_scene_never_selected:
  assumes "select_loop blip clip q scenes (None, - 1) = (best, hi)"
  shows "(list_ex (\<lambda>x. exceeds (process_scene blip clip (fst x) q) (- 1)) scenes \<longrightarrow> best \<noteq> None) \<and>
         (best \<noteq> None \<longrightarrow>
            (\<exists>pre fs s e post. scenes = pre @ (fs, s, e) # post \<and> best = Some (s, e) \<and>
               process_scene blip clip fs q = Num hi \<and> - 1 < hi))"
proof -
  from select_loop_spec[OF assms] show ?thesis
  proof
    assume "best = None \<and> hi = - 1 \<and>
      list_all (\<lambda>x. \<not> exceeds (process_scene blip clip (fst x) q) (- 1)) scenes"
    then show ?thesis by (auto simp: list_all_iff list_ex_iff)
  next
    assume "\<exists>pre fs s e post. scenes = pre @ (fs, s, e) # post \<and> best = Some (s, e) \<and>
        process_scene blip clip fs q = Num hi \<and> - 1 < hi \<and>
        list_all (\<lambda>x. \<not> reaches (process_scene blip clip (fst x) q) hi) pre \<and>
        list_all (\<lambda>x. \<not> exceeds (process_scene blip clip (fst x) q) hi) post"
    then show ?thesis by blast
  qed
qed

theorem sentinel_scene_never_selected_witness:
  "select_loop demo_blip demo_clip (Some [[1, 0]])
     [([10, 11], 0, 2), ([12, 13], 2, 4)] (None, - 1) = (Some (2, 4), 0) \<and>
   list_ex (\<lambda>x. exceeds (process_scene demo_blip demo_clip (fst x) (Some [[1, 0]])) (- 1))
     [([10, 11], 0, 2), ([12, 13], 2, 4)] \<and>
   (\<exists>pre fs post. [([10, 11], 0, 2), ([12, 13], 2, 4)] = pre @ (fs, 2 :: int, 4 :: int) # post \<and>
      process_scene demo_blip demo_clip fs (Some [[1, 0]]) = Num 0)"
proof -
  have h: "select_loop demo_blip demo_clip (Some [[1, 0]])
     [([10, 11], 0, 2), ([12, 13], 2, 4)] (None, - 1) = (Some (2, 4), 0)"
    by (simp add: demo_score_dog_cat demo_score_failed)
  have e: "list_ex (\<lambda>x. exceeds (process_scene demo_blip demo_clip (fst x) (Some [[1, 0]])) (- 1))
     [([10, 11], 0, 2), ([12, 13], 2, 4)]"
    by (simp add: demo_score_dog_cat exceeds_def)
  from sentinel_scene_never_selected[OF h] show ?thesis using h e by auto
qed

text \<open>
  Claim C6 (no result): when scenes are detected and the score of no scene exceeds -1,
  \<open>process_video\<close> returns \<open>None\<close>, not a path, and writes no output file.
\<close>

theorem no_scene_above_sentinel_no_output:
  assumes "detect_scenes v = Inr scene_list"
    and "list_all (\<lambda>(s, e). \<not> exceeds (process_scene blip clip (extract_frames v s e)
                                  (get_query_embedding clip query)) (- 1)) scene_list"
  shows "process_video blip clip v query path = Inr (None, None)"
proof -
  let ?frames = "map (\<lambda>(s, e). (extract_frames v s e, s, e)) scene_list"
  have "list_all (\<lambda>x. \<not> exceeds (process_scene blip clip (fst x) (get_query_embedding clip query)) (- 1))
          ?frames"
    using assms(2) by (auto simp: list_all_iff)
  then have "select_loop blip clip (get_query_embedding clip query) ?frames (None, - 1) = (None, - 1)"
    by (rule select_loop_unchanged)
  then show ?thesis using assms(1) by (simp add: process_video_def)
qed

theorem no_scene_above_sentinel_no_output_witness:
  "detect_scenes demo_video = Inr [(0, 2), (2, 4)] \<and>
   process_scene (\<lambda>f. None) demo_clip (extract_frames demo_video 0 2)
     (get_query_embedding demo_clip ''sunset'') = Num (- 1) \<and>
   process_scene (\<lambda>f. None) demo_clip (extract_frames demo_video 2 4)
     (get_query_embedding demo_clip ''sunset'') = Num (- 1) \<and>
   process_video (\<lambda>f. None) demo_clip demo_video ''sunset'' ''out.mp4'' = Inr (None, None)"
proof -
  have s: "process_scene (\<lambda>f. None) demo_clip frames q = Num (- 1)" for frames :: "nat list" and q
    by (rule all_fail_score) (simp add: list_all_iff frame_fails_def)
  have h: "list_all (\<lambda>(s, e). \<not> exceeds (process_scene (\<lambda>f. None) demo_clip (extract_frames demo_video s e)
                                  (get_query_embedding demo_clip ''sunset'')) (- 1)) [(0, 2), (2, 4)]"
    by (simp add: s exceeds_def)
  from no_scene_above_sentinel_no_output[OF demo_scenes h] show ?thesis
    by (simp add: demo_scenes s)
qed

text \<open>
  Claim C7 (video without content change). The claim: \<open>detect_scenes\<close> returns exactly one
  interval, spanning the whole video. Evaluated on the still video, which opens, has three
  frames and no cut: \<open>detect_scenes\<close> returns the empty list, because \<open>get_scene_list\<close>
  is called with its default \<open>start_in_scene = False\<close>; the same call with
  \<open>start_in_scene = True\<close> returns the one scene from frame 0 to frame 3. With no scene,
  \<open>process_video\<close> returns \<open>None\<close> whatever the query.
\<close>

theorem no_cut_no_scene:
  "opens still_video \<and> cut_list still_video = [] \<and> frame_count still_video = 3 \<and>
   detect_scenes still_video = Inr [] \<and>
   get_scene_list True (cut_list still_video) 0 (frame_count still_video - 1) = [(0, 3)] \<and>
   process_video demo_blip demo_clip still_video ''sunset'' ''out.mp4'' = Inr (None, None)"
  by (simp add: still_scenes process_video_def)
     (simp add: still_video_def get_scene_list_def get_scenes_from_cuts_def)

text \<open>
  Claim C8 (frames of a scene): \<open>extract_frames\<close> returns the frames read at the indices
  of \<open>[scene_start, scene_end]\<close> at which reading succeeds, in strictly ascending order
  of the index; the indices where reading fails are skipped, so the list has at most
  \<open>scene_end - scene_start + 1\<close> frames. The function has no failing branch.
\<close>

theorem extract_frames_in_range_ascending:
  "extract_frames v s e = map (\<lambda>t. the (read_at v t)) (filter (\<lambda>t. read_at v t \<noteq> None) [s..e]) \<and>
   sorted_wrt (<) (filter (\<lambda>t. read_at v t \<noteq> None) [s..e]) \<and>
   set (filter (\<lambda>t. read_at v t \<noteq> None) [s..e]) \<subseteq> {s..e} \<and>
   length (extract_frames v s e) \<le> nat (e - s + 1)"
proof -
  have "length (filter (\<lambda>t. read_at v t \<noteq> None) [s..e]) \<le> length [s..e]"
    by (rule length_filter_le)
  then have "length (extract_frames v s e) \<le> nat (e - s + 1)"
    by (simp add: extract_frames_def read_loop_filter)
  moreover have "sorted_wrt (<) (filter (\<lambda>t. read_at v t \<noteq> None) [s..e])"
    by (rule sorted_wrt_filter) simp
  ultimately show ?thesis by (auto simp: extract_frames_def read_loop_filter)
qed




end
